theory Spec2Isabelle
  imports Main
begin

section \<open>The search record\<close>

text \<open>
  \<^verbatim>\<open>interface MinifiedSearchRecord\<close> of \<^verbatim>\<open>src/index.ts\<close>: \<open>t\<close> is the types package
  name, \<open>g\<close> the globals, \<open>m\<close> the modules, \<open>p\<close> the project field (printed as the URL),
  \<open>l\<close> the library name and \<open>d\<close> the downloads of the last month. A JavaScript string
  is a \<open>string\<close> here (only equality and concatenation are used); the download count
  is an \<open>int\<close>, on which the subtraction of the sorter is exact.
\<close>

record MinifiedSearchRecord =
  t :: string
  g :: "string list"
  m :: "string list"
  p :: string
  l :: string
  d :: int

section \<open>The callbacks of createEngine\<close>

text \<open>
  \<^verbatim>\<open>createEngine\<close> declares \<^verbatim>\<open>let query = ""\<close> and hands four callbacks to the engine.
  The variable is shared by \<^verbatim>\<open>queryTokenizer\<close> (which writes it) and \<^verbatim>\<open>sorter\<close> (which
  reads it), so it is passed explicitly: \<open>queryTokenizer\<close> returns the tokens together
  with the new value of the variable, \<open>sorter\<close> takes its current value first.
\<close>

definition datumTokenizer :: "MinifiedSearchRecord \<Rightarrow> string list" where
  "datumTokenizer entry = [l entry, p entry, t entry] @ g entry @ m entry"

definition queryTokenizer :: "string \<Rightarrow> string \<Rightarrow> string list \<times> string" where
  "queryTokenizer input query = ([input], input)"

definition identify :: "MinifiedSearchRecord \<Rightarrow> string" where
  "identify e = t e"

definition sorter :: "string \<Rightarrow> MinifiedSearchRecord \<Rightarrow> MinifiedSearchRecord \<Rightarrow> int" where
  "sorter query x y =
     (if t x = query \<or> t x = query @ ''js'' \<or> t x = query @ ''.js'' \<or> t x = query @ ''-js''
      then - 1
      else if t y = query \<or> t y = query @ ''js'' \<or> t y = query @ ''.js'' \<or> t y = query @ ''-js''
      then 1
      else d y - d x)"

text \<open>
  The exact forms of a query term, in the words of the specification of the ranker:
  the term itself and its three suffix variants.
\<close>

definition exactForms :: "string \<Rightarrow> string set" where
  "exactForms queryTerm =
     {queryTerm, queryTerm @ ''js'', queryTerm @ ''.js'', queryTerm @ ''-js''}"

section \<open>The engine behind the callbacks\<close>

text \<open>
  The engine itself (the \<^verbatim>\<open>bloodhound-js\<close> package) is configured by \<^verbatim>\<open>createEngine\<close>
  but only declared in \<^verbatim>\<open>types/index.d.ts\<close>: its index, its lookup and the sort it runs
  with \<open>sorter\<close> are not part of the sources. The definitions of this section stand in
  for it and follow the specification of the record store and of the ranker.
\<close>

text \<open>
  Modelled from the spec: the error taxonomy of the record store (\<open>InvalidInputError\<close>),
  and the store as the records loaded so far together with the token index; the engine's
  own errors and data structures are missing from the sources.
\<close>

datatype error = InvalidInputError

record Store =
  datums :: "MinifiedSearchRecord list"
  tokenIndex :: "string \<rightharpoonup> MinifiedSearchRecord list"

text \<open>
  Modelled from the spec: the store before any record is loaded; the engine's index
  structure is missing from the sources.
\<close>

definition emptyStore :: Store where
  "emptyStore = \<lparr>datums = [], tokenIndex = Map.empty\<rparr>"

text \<open>
  Modelled from the spec: the records filed under a token, none when the token is
  unknown (the index lookup of the missing engine).
\<close>

definition posting :: "(string \<rightharpoonup> MinifiedSearchRecord list) \<Rightarrow> string \<Rightarrow> MinifiedSearchRecord list" where
  "posting ix tok = (case ix tok of None \<Rightarrow> [] | Some rs \<Rightarrow> rs)"

text \<open>
  Modelled from the spec: "builds an internal token index mapping each token to the set of
  records containing it". The record is filed once under each of its tokens, also when
  two of its fields carry the same token (the missing engine's index construction).
\<close>

fun indexTokens ::
  "MinifiedSearchRecord \<Rightarrow> string list \<Rightarrow> (string \<rightharpoonup> MinifiedSearchRecord list)
     \<Rightarrow> (string \<rightharpoonup> MinifiedSearchRecord list)" where
  "indexTokens r [] ix = ix"
| "indexTokens r (tok # toks) ix =
     indexTokens r toks
       (if r \<in> set (posting ix tok) then ix else ix(tok \<mapsto> posting ix tok @ [r]))"

text \<open>
  Modelled from the spec: adding one record to the store, refused with
  \<open>InvalidInputError\<close> when its key (\<open>identify\<close>) is already present (the missing
  engine's \<^verbatim>\<open>add\<close>). The tokens are those of the source's \<open>datumTokenizer\<close>.
\<close>

definition addRecord :: "MinifiedSearchRecord \<Rightarrow> Store \<Rightarrow> error + Store" where
  "addRecord r s =
     (if identify r \<in> set (map identify (datums s)) then Inl InvalidInputError
      else Inr \<lparr>datums = datums s @ [r],
                tokenIndex = indexTokens r (datumTokenizer r) (tokenIndex s)\<rparr>)"

text \<open>
  Modelled from the spec: \<^verbatim>\<open>load(records) -> Store\<close>, which fails with
  \<open>InvalidInputError\<close> on a duplicate key and then returns no store at all (the
  missing engine's initialisation from the prefetched data). \<open>loadFrom\<close> adds the
  records in order to a store and stops at the first one that is refused.
\<close>

fun loadFrom :: "Store \<Rightarrow> MinifiedSearchRecord list \<Rightarrow> error + Store" where
  "loadFrom s [] = Inr s"
| "loadFrom s (r # rs) =
     (case addRecord r s of Inl e \<Rightarrow> Inl e | Inr s' \<Rightarrow> loadFrom s' rs)"

definition load :: "MinifiedSearchRecord list \<Rightarrow> error + Store" where
  "load records = loadFrom emptyStore records"

text \<open>
  Modelled from the spec: \<^verbatim>\<open>query(term)\<close> of the record store, the missing engine's index
  search. The term goes through the source's \<open>queryTokenizer\<close>, which also overwrites
  the shared variable, and the records filed under the resulting tokens are returned.
\<close>

definition storeQuery ::
  "Store \<Rightarrow> string \<Rightarrow> string \<Rightarrow> MinifiedSearchRecord list \<times> string" where
  "storeQuery s term query =
     (let (tokens, query') = queryTokenizer term query
      in (concat (map (posting (tokenIndex s)) tokens), query'))"

text \<open>
  Modelled from the spec: the "total, terminating sort over a finite sequence" that the
  missing engine runs with a compare function: \<open>x\<close> is placed before the first element
  it does not compare greater than, so equal elements keep their original order.
\<close>

fun placeWith :: "('a \<Rightarrow> 'a \<Rightarrow> int) \<Rightarrow> 'a \<Rightarrow> 'a list \<Rightarrow> 'a list" where
  "placeWith cmp x [] = [x]"
| "placeWith cmp x (y # ys) =
     (if cmp x y \<le> 0 then x # y # ys else y # placeWith cmp x ys)"

fun sortWith :: "('a \<Rightarrow> 'a \<Rightarrow> int) \<Rightarrow> 'a list \<Rightarrow> 'a list" where
  "sortWith cmp [] = []"
| "sortWith cmp (x # xs) = placeWith cmp x (sortWith cmp xs)"

text \<open>
  Modelled from the spec: \<^verbatim>\<open>rank(queryTerm, matches)\<close>, the ranker with the query term as
  an explicit parameter; the comparator is the source's \<open>sorter\<close>.
\<close>

definition rank :: "string \<Rightarrow> MinifiedSearchRecord list \<Rightarrow> MinifiedSearchRecord list" where
  "rank queryTerm matches = sortWith (sorter queryTerm) matches"

text \<open>
  Modelled from the spec: the engine's \<^verbatim>\<open>search\<close> as the control flow of the system
  overview gives it: the store tokenizes the query and retrieves the candidates, then
  the candidates are sorted with \<open>sorter\<close>, which reads the shared variable as the
  tokenizer left it.
\<close>

definition engineSearch ::
  "Store \<Rightarrow> string \<Rightarrow> string \<Rightarrow> MinifiedSearchRecord list \<times> string" where
  "engineSearch s term query =
     (let (matches, query') = storeQuery s term query
      in (sortWith (sorter query') matches, query'))"

section \<open>searchForTypes and main\<close>

text \<open>
  \<^verbatim>\<open>createEngine\<close> starts the shared variable at the empty string: the constant
  \<open>createEngine\<close> is that initial value. \<^verbatim>\<open>searchForTypes\<close> creates an engine,
  initialises it from the prefetched index (\<open>load\<close> on the parsed content of
  \<^verbatim>\<open>searchIndexUrl\<close>, a parameter here), searches (\<open>engineSearch\<close>), and maps every
  datum handed to the callback to a package name and a URL. An exception on the way
  rejects the promise: the \<open>Inl\<close> branch.
\<close>

record SearchResult =
  packageName :: string
  url :: string

definition createEngine :: string where
  "createEngine = ''''"

definition searchForTypes :: "MinifiedSearchRecord list \<Rightarrow> string \<Rightarrow> error + SearchResult list" where
  "searchForTypes prefetched searchTerm =
     (case load prefetched of
        Inl e \<Rightarrow> Inl e
      | Inr engine \<Rightarrow>
          Inr (map (\<lambda>x. \<lparr>packageName = ''@types/'' @ t x, url = p x\<rparr>)
                 (fst (engineSearch engine searchTerm createEngine))))"

text \<open>
  \<^verbatim>\<open>main\<close> takes the first command-line argument (\<^verbatim>\<open>process.argv.slice(2)\<close>, here
  \<open>argv\<close>), which is \<^verbatim>\<open>undefined\<close> (\<open>None\<close>) when there is none; \<^verbatim>\<open>!searchTerm\<close> holds for
  \<^verbatim>\<open>undefined\<close> and for the empty string. What \<open>main\<close> does is recorded as a trace: the
  warning, the call of \<^verbatim>\<open>searchForTypes\<close> with its argument, and one line per result (or
  the rejection). The outcome of \<^verbatim>\<open>searchForTypes(undefined)\<close> lies outside the declared
  type of its parameter and is taken as the parameter \<open>undef\<close>.
\<close>

datatype event =
  Warn string
| CallSearchForTypes "string option"
| Log string
| Rejected error

definition falsy :: "string option \<Rightarrow> bool" where
  "falsy searchTerm = (case searchTerm of None \<Rightarrow> True | Some s \<Rightarrow> s = [])"

definition bullet :: string where
  "bullet = [CHR 0xE2, CHR 0x96, CHR 0xBA]"

definition main ::
  "string list \<Rightarrow> MinifiedSearchRecord list \<Rightarrow> error + SearchResult list \<Rightarrow> event list" where
  "main argv prefetched undef =
     (let searchTerm = (case argv of [] \<Rightarrow> None | a # _ \<Rightarrow> Some a)
      in (if falsy searchTerm then [Warn ''No search term found!''] else [])
         @ [CallSearchForTypes searchTerm]
         @ (case (case searchTerm of None \<Rightarrow> undef | Some a \<Rightarrow> searchForTypes prefetched a) of
              Inl e \<Rightarrow> [Rejected e]
            | Inr data \<Rightarrow>
                map (\<lambda>d. Log (bullet @ '' '' @ packageName d @ '' ('' @ url d @ '')'')) data))"

section \<open>Sample records\<close>

text \<open>
  The records of the specification's testable properties (lodash and lodash-js, foo and
  bar, react-js), completed with the fields those examples leave out. The record for foo
  lists lodash among its modules.
\<close>

definition recLodash :: MinifiedSearchRecord where
  "recLodash = \<lparr>t = ''lodash'', g = [''_''], m = [''lodash''], p = ''https://lodash.com'',
     l = ''Lo-Dash'', d = 100\<rparr>"

definition recLodashJs :: MinifiedSearchRecord where
  "recLodashJs = \<lparr>t = ''lodash-js'', g = [], m = [''lodash-js''],
     p = ''https://example.org/lodash-js'', l = ''lodash js'', d = 100000\<rparr>"

definition recFoo :: MinifiedSearchRecord where
  "recFoo = \<lparr>t = ''foo'', g = [], m = [''lodash''], p = ''https://example.org/foo'',
     l = ''Foo'', d = 10\<rparr>"

definition recBar :: MinifiedSearchRecord where
  "recBar = \<lparr>t = ''bar'', g = [], m = [], p = ''https://example.org/bar'',
     l = ''Bar'', d = 50\<rparr>"

definition recReactJs :: MinifiedSearchRecord where
  "recReactJs = \<lparr>t = ''react-js'', g = [''React''], m = [''react''],
     p = ''https://example.org/react-js'', l = ''React'', d = 1\<rparr>"

section \<open>The invariant of the store\<close>

text \<open>
  What every store built by \<open>load\<close> satisfies: the keys of its records are distinct, and
  the index files under each token exactly the records whose tokens contain it, in the
  order in which they were loaded.
\<close>

definition storeInv :: "Store \<Rightarrow> bool" where
  "storeInv s =
     (distinct (map identify (datums s)) \<and>
      (\<forall>tok. posting (tokenIndex s) tok =
         filter (\<lambda>r. tok \<in> set (datumTokenizer r)) (datums s)))"

section \<open>The comparator\<close>

lemma sorter_exact_first:
  "t x \<in> exactForms q \<Longrightarrow> sorter q x y = - 1"
  by (auto simp: sorter_def exactForms_def)

lemma sorter_exact_second:
  "t x \<notin> exactForms q \<Longrightarrow> t y \<in> exactForms q \<Longrightarrow> sorter q x y = 1"
  by (auto simp: sorter_def exactForms_def)

lemma sorter_neither:
  "t x \<notin> exactForms q \<Longrightarrow> t y \<notin> exactForms q \<Longrightarrow> sorter q x y = d y - d x"
  by (auto simp: sorter_def exactForms_def)

text \<open>
  Claim C1. For every query term \<open>q\<close> and records \<open>x\<close>, \<open>y\<close>: when the types package
  name of \<open>x\<close> is an exact form of \<open>q\<close> and that of \<open>y\<close> is not, the comparator is negative
  on \<open>(x, y)\<close> and positive on \<open>(y, x)\<close>, so \<open>x\<close> sorts strictly before \<open>y\<close> in either
  argument order, whatever the two download counts are.
\<close>

theorem sorter_exact_before_inexact:
  assumes "t x \<in> exactForms q" and "t y \<notin> exactForms q"
  shows "sorter q x y < 0 \<and> 0 < sorter q y x"
  using assms by (simp add: sorter_exact_first sorter_exact_second)

theorem sorter_exact_before_inexact_witness:
  "t recReactJs \<in> exactForms ''react'' \<and> t recBar \<notin> exactForms ''react'' \<and>
   d recReactJs < d recBar \<and>
   sorter ''react'' recReactJs recBar < 0 \<and> 0 < sorter ''react'' recBar recReactJs"
proof -
  have a: "t recReactJs \<in> exactForms ''react''"
    by (simp add: exactForms_def recReactJs_def)
  have b: "t recBar \<notin> exactForms ''react''"
    by (simp add: exactForms_def recBar_def)
  have c: "d recReactJs < d recBar"
    by (simp add: recReactJs_def recBar_def)
  from sorter_exact_before_inexact [OF a b] a b c show ?thesis by blast
qed

text \<open>
  Claim C2, as amended. When neither types package name is an exact form of the query
  term, the comparator is the difference of the download counts, second minus first:
  negative exactly when the first record has more downloads, positive exactly when it has
  fewer. (When both names are exact forms the comparator does not look at the
  downloads: see the counterexample below.)
\<close>

theorem sorter_neither_by_downloads:
  assumes "t x \<notin> exactForms q" and "t y \<notin> exactForms q"
  shows "sorter q x y = d y - d x \<and>
         (sorter q x y < 0 \<longleftrightarrow> d y < d x) \<and> (0 < sorter q x y \<longleftrightarrow> d x < d y)"
  using assms by (simp add: sorter_neither)

theorem sorter_neither_by_downloads_witness:
  "t recFoo \<notin> exactForms ''baz'' \<and> t recBar \<notin> exactForms ''baz'' \<and>
   d recFoo < d recBar \<and> 0 < sorter ''baz'' recFoo recBar \<and> sorter ''baz'' recBar recFoo < 0"
proof -
  have a: "t recFoo \<notin> exactForms ''baz''" by (simp add: exactForms_def recFoo_def)
  have b: "t recBar \<notin> exactForms ''baz''" by (simp add: exactForms_def recBar_def)
  have c: "d recFoo < d recBar" by (simp add: recFoo_def recBar_def)
  from sorter_neither_by_downloads [OF a b] sorter_neither_by_downloads [OF b a] a b c
  show ?thesis by simp
qed

text \<open>
  Claim C2 as stated fails when both names are exact forms: for the query lodash, the
  records lodash (100 downloads) and lodash-js (100000 downloads) are both exact, and the
  comparator still puts lodash first.
\<close>

theorem sorter_both_exact_counterexample:
  "t recLodash \<in> exactForms ''lodash'' \<and> t recLodashJs \<in> exactForms ''lodash'' \<and>
   d recLodash < d recLodashJs \<and> sorter ''lodash'' recLodash recLodashJs < 0"
  by (simp add: exactForms_def sorter_def recLodash_def recLodashJs_def)

text \<open>
  Claim C3 asks for a comparator that is zero on \<open>(x, x)\<close> and that changes sign when its
  arguments are swapped, also when names are exact forms. The sorter returns \<open>- 1\<close> as
  soon as its first argument is exact, without looking at the second: for the query
  lodash it is \<open>- 1\<close> on (lodash, lodash), on (lodash, lodash-js) and on
  (lodash-js, lodash).
\<close>

theorem sorter_not_antisymmetric:
  "sorter ''lodash'' recLodash recLodash = - 1 \<and>
   sorter ''lodash'' recLodash recLodashJs = - 1 \<and>
   sorter ''lodash'' recLodashJs recLodash = - 1"
  by (simp add: sorter_def recLodash_def recLodashJs_def)

text \<open>
  Outside that case the sorter is a consistent comparator: when at most one of the two
  names is an exact form, swapping the arguments negates the result (so it is zero on
  \<open>(x, x)\<close> for every record that is not exact).
\<close>

theorem sorter_consistent_unless_both_exact:
  assumes "t x \<notin> exactForms q \<or> t y \<notin> exactForms q"
  shows "sorter q x y = - sorter q y x"
  using assms sorter_exact_first [of x q y] sorter_exact_first [of y q x]
    sorter_exact_second [of x q y] sorter_exact_second [of y q x]
    sorter_neither [of x q y] sorter_neither [of y q x]
  by (cases "t x \<in> exactForms q"; cases "t y \<in> exactForms q") simp_all

theorem sorter_consistent_unless_both_exact_witness:
  "t recBar \<notin> exactForms ''lodash'' \<and>
   sorter ''lodash'' recLodash recBar = - sorter ''lodash'' recBar recLodash \<and>
   sorter ''lodash'' recBar recBar = 0"
proof -
  have b: "t recBar \<notin> exactForms ''lodash''" by (simp add: exactForms_def recBar_def)
  then have "t recLodash \<notin> exactForms ''lodash'' \<or> t recBar \<notin> exactForms ''lodash''"
    and "t recBar \<notin> exactForms ''lodash'' \<or> t recBar \<notin> exactForms ''lodash''"
    by simp_all
  from this [THEN sorter_consistent_unless_both_exact] b show ?thesis by simp
qed

section \<open>The ranking\<close>

lemma placeWith_exact:
  "t x \<in> exactForms q \<Longrightarrow> placeWith (sorter q) x ys = x # ys"
  by (cases ys) (simp_all add: sorter_exact_first)

lemma placeWith_past_exact:
  "t x \<notin> exactForms q \<Longrightarrow> \<forall>e \<in> set es. t e \<in> exactForms q \<Longrightarrow>
     placeWith (sorter q) x (es @ ns) = es @ placeWith (sorter q) x ns"
  by (induction es) (simp_all add: sorter_exact_second)

lemma set_placeWith: "set (placeWith cmp x ys) = insert x (set ys)"
  by (induction ys) auto

lemma set_sortWith: "set (sortWith cmp xs) = set xs"
  by (induction xs) (simp_all add: set_placeWith)

lemma rank_exact_first:
  "rank q matches =
     filter (\<lambda>r. t r \<in> exactForms q) matches
       @ rank q (filter (\<lambda>r. t r \<notin> exactForms q) matches)"
proof (induction matches)
  case Nil
  show ?case by (simp add: rank_def)
next
  case (Cons x xs)
  let ?E = "filter (\<lambda>r. t r \<in> exactForms q) xs"
  let ?N = "filter (\<lambda>r. t r \<notin> exactForms q) xs"
  from Cons.IH have ih: "sortWith (sorter q) xs = ?E @ sortWith (sorter q) ?N"
    by (simp add: rank_def)
  show ?case
  proof (cases "t x \<in> exactForms q")
    case True
    then show ?thesis by (simp add: rank_def ih placeWith_exact)
  next
    case False
    have "\<forall>e \<in> set ?E. t e \<in> exactForms q" by simp
    with False have "placeWith (sorter q) x (?E @ sortWith (sorter q) ?N) =
        ?E @ placeWith (sorter q) x (sortWith (sorter q) ?N)"
      by (rule placeWith_past_exact)
    with False show ?thesis by (simp add: rank_def ih)
  qed
qed

lemma placeWith_sorted:
  assumes "t x \<notin> exactForms q" and "\<forall>r \<in> set ys. t r \<notin> exactForms q"
    and "sorted_wrt (\<lambda>a b. d b \<le> d a) ys"
  shows "sorted_wrt (\<lambda>a b. d b \<le> d a) (placeWith (sorter q) x ys)"
  using assms
proof (induction ys)
  case Nil
  then show ?case by simp
next
  case (Cons y ys)
  from Cons.prems have cmp: "sorter q x y = d y - d x" by (simp add: sorter_neither)
  show ?case
  proof (cases "sorter q x y \<le> 0")
    case True
    with cmp have "d y \<le> d x" by simp
    with Cons.prems(3) have "\<forall>z \<in> set (y # ys). d z \<le> d x" by auto
    with True Cons.prems(3) show ?thesis by simp
  next
    case False
    with cmp have "d x \<le> d y" by simp
    moreover from Cons have "sorted_wrt (\<lambda>a b. d b \<le> d a) (placeWith (sorter q) x ys)"
      by simp
    ultimately show ?thesis using False Cons.prems(3) by (auto simp: set_placeWith)
  qed
qed

lemma rank_inexact_by_downloads:
  assumes "\<forall>r \<in> set matches. t r \<notin> exactForms q"
  shows "sorted_wrt (\<lambda>a b. d b \<le> d a) (rank q matches)"
  using assms
proof (induction matches)
  case Nil
  show ?case by (simp add: rank_def)
next
  case (Cons x xs)
  then have "sorted_wrt (\<lambda>a b. d b \<le> d a) (sortWith (sorter q) xs)"
    by (simp add: rank_def)
  moreover from Cons.prems have "t x \<notin> exactForms q" by simp
  moreover from Cons.prems
  have "\<forall>r \<in> set (sortWith (sorter q) xs). t r \<notin> exactForms q"
    by (simp add: set_sortWith)
  ultimately show ?case by (simp add: rank_def placeWith_sorted)
qed

text \<open>
  The shape of every ranking: first the records whose name is an exact form of the query
  term, in the order in which they came, then the other records by downloads, largest
  first.
\<close>

theorem rank_shape:
  "rank q matches =
     filter (\<lambda>r. t r \<in> exactForms q) matches
       @ rank q (filter (\<lambda>r. t r \<notin> exactForms q) matches) \<and>
   sorted_wrt (\<lambda>a b. d b \<le> d a) (rank q (filter (\<lambda>r. t r \<notin> exactForms q) matches))"
proof
  show "rank q matches =
     filter (\<lambda>r. t r \<in> exactForms q) matches
       @ rank q (filter (\<lambda>r. t r \<notin> exactForms q) matches)"
    by (rule rank_exact_first)
  show "sorted_wrt (\<lambda>a b. d b \<le> d a) (rank q (filter (\<lambda>r. t r \<notin> exactForms q) matches))"
    by (rule rank_inexact_by_downloads) simp
qed

lemma rank_examples:
  "rank ''lodash'' [recLodash, recLodashJs] = [recLodash, recLodashJs]"
  "rank ''lodash'' [recLodashJs, recLodash] = [recLodashJs, recLodash]"
  "rank ''baz'' [recFoo, recBar] = [recBar, recFoo]"
  "rank ''react'' [recLodashJs, recBar, recReactJs] = [recReactJs, recLodashJs, recBar]"
  by (simp_all add: rank_def sorter_def
      recLodash_def recLodashJs_def recFoo_def recBar_def recReactJs_def)

section \<open>The tokenizers\<close>

text \<open>
  Claim C4, as amended. The tokens of a record are its library name, its project field,
  its types package name, its globals and its modules: one token per field value or list
  element, never split (a value with blanks stays one token), in that order.
\<close>

theorem datumTokenizer_tokens:
  "datumTokenizer entry = l entry # p entry # t entry # g entry @ m entry \<and>
   set (datumTokenizer entry) =
     {l entry, p entry, t entry} \<union> set (g entry) \<union> set (m entry) \<and>
   length (datumTokenizer entry) = 3 + length (g entry) + length (m entry)"
  by (auto simp: datumTokenizer_def)

text \<open>
  Claim C4 as stated leaves the project field out of the tokens. For the lodash record
  the project field is a token and is none of the library name, the types package name,
  the globals and the modules.
\<close>

theorem datumTokenizer_projectUrl_counterexample:
  "p recLodash \<in> set (datumTokenizer recLodash) \<and>
   p recLodash \<notin> {l recLodash, t recLodash} \<union> set (g recLodash) \<union> set (m recLodash) \<and>
   set (datumTokenizer recLodash) \<noteq>
     {l recLodash, t recLodash} \<union> set (g recLodash) \<union> set (m recLodash)"
proof -
  have inside: "p recLodash \<in> set (datumTokenizer recLodash)"
    by (simp add: datumTokenizer_def)
  have outside:
    "p recLodash \<notin> {l recLodash, t recLodash} \<union> set (g recLodash) \<union> set (m recLodash)"
    by (simp add: recLodash_def)
  from inside outside show ?thesis by metis
qed

lemma queryTokenizer_overwrites:
  "queryTokenizer input query0 = ([input], input)"
  by (simp add: queryTokenizer_def)

text \<open>
  Claim C9. Queries and rankings are determined by their arguments: for a fixed term,
  the query tokenizer, the store's query and the whole search return the same result
  whatever the shared variable held before (for instance an earlier tokenized query);
  the sorter that runs after the term was tokenized is the comparator for that term, so
  sorting a sequence of matches with it is the ranking of that sequence for that term,
  and the search returns the ranking, for the term, of the store's matches for the term.
\<close>

theorem query_rank_deterministic:
  "queryTokenizer term query0 = queryTokenizer term query1 \<and>
   storeQuery s term query0 = storeQuery s term query1 \<and>
   sorter (snd (queryTokenizer term query0)) x y = sorter term x y \<and>
   sortWith (sorter (snd (queryTokenizer term query0))) matches = rank term matches \<and>
   engineSearch s term query0 = engineSearch s term query1 \<and>
   fst (engineSearch s term query0) = rank term (fst (storeQuery s term query1))"
proof -
  have tok: "queryTokenizer term q = ([term], term)" for q
    by (rule queryTokenizer_overwrites)
  have qry: "storeQuery s term q = (posting (tokenIndex s) term, term)" for q
    by (simp add: storeQuery_def tok)
  have srch: "engineSearch s term q = (rank term (posting (tokenIndex s) term), term)" for q
    by (simp add: engineSearch_def qry rank_def)
  show ?thesis
    by (simp add: tok qry srch rank_def)
qed

section \<open>The store\<close>

lemma posting_update:
  "posting (ix(tok \<mapsto> rs)) tok' = (if tok' = tok then rs else posting ix tok')"
  by (simp add: posting_def)

lemma posting_indexTokens:
  "posting (indexTokens r toks ix) tok =
     (if tok \<in> set toks \<and> r \<notin> set (posting ix tok)
      then posting ix tok @ [r] else posting ix tok)"
proof (induction toks arbitrary: ix)
  case Nil
  show ?case by simp
next
  case (Cons a toks)
  show ?case
  proof (cases "r \<in> set (posting ix a)")
    case True
    then have "indexTokens r (a # toks) ix = indexTokens r toks ix" by simp
    with True Cons.IH [of ix] show ?thesis by auto
  next
    case False
    let ?ix = "ix(a \<mapsto> posting ix a @ [r])"
    from False have step: "indexTokens r (a # toks) ix = indexTokens r toks ?ix" by simp
    have upd: "posting ?ix tok = (if tok = a then posting ix a @ [r] else posting ix tok)"
      by (rule posting_update)
    have ih: "posting (indexTokens r toks ?ix) tok =
        (if tok \<in> set toks \<and> r \<notin> set (posting ?ix tok)
         then posting ?ix tok @ [r] else posting ?ix tok)"
      by (rule Cons.IH)
    show ?thesis
    proof (cases "tok = a")
      case True
      with False upd have now: "posting ?ix tok = posting ix tok @ [r]" by simp
      then have "r \<in> set (posting ?ix tok)" by simp
      with ih have "posting (indexTokens r toks ?ix) tok = posting ?ix tok" by simp
      with now have "posting (indexTokens r (a # toks) ix) tok = posting ix tok @ [r]"
        by (simp only: step)
      moreover from True False have "tok \<in> set (a # toks) \<and> r \<notin> set (posting ix tok)"
        by simp
      ultimately show ?thesis by presburger
    next
      case neq: False
      with upd have same: "posting ?ix tok = posting ix tok" by simp
      from neq have "tok \<in> set (a # toks) \<longleftrightarrow> tok \<in> set toks" by simp
      with ih same show ?thesis by (simp only: step)
    qed
  qed
qed

lemma addRecord_inv:
  assumes inv: "storeInv s" and add: "addRecord r s = Inr s'"
  shows "storeInv s' \<and> datums s' = datums s @ [r]"
proof -
  from add have fresh: "identify r \<notin> set (map identify (datums s))"
    by (auto simp: addRecord_def split: if_splits)
  with add have s': "s' = \<lparr>datums = datums s @ [r],
      tokenIndex = indexTokens r (datumTokenizer r) (tokenIndex s)\<rparr>"
    by (simp add: addRecord_def)
  from fresh have new: "r \<notin> set (datums s)" by auto
  from inv have old: "posting (tokenIndex s) tok =
      filter (\<lambda>r. tok \<in> set (datumTokenizer r)) (datums s)" for tok
    by (simp add: storeInv_def)
  have "posting (tokenIndex s') tok =
      filter (\<lambda>r. tok \<in> set (datumTokenizer r)) (datums s')" for tok
    using new by (simp add: s' posting_indexTokens old)
  moreover from inv fresh have "distinct (map identify (datums s'))"
    by (simp add: s' storeInv_def)
  ultimately show ?thesis by (simp add: storeInv_def s')
qed

lemma loadFrom_ok:
  "storeInv s \<Longrightarrow> distinct (map identify (datums s @ rs)) \<Longrightarrow>
    \<exists>s'. loadFrom s rs = Inr s' \<and> storeInv s' \<and> datums s' = datums s @ rs"
proof (induction rs arbitrary: s)
  case Nil
  then show ?case by simp
next
  case (Cons r rs)
  from Cons.prems(2) have fresh: "identify r \<notin> set (map identify (datums s))" by auto
  then obtain s1 where s1: "addRecord r s = Inr s1" by (auto simp: addRecord_def)
  with Cons.prems(1) have inv1: "storeInv s1" and d1: "datums s1 = datums s @ [r]"
    using addRecord_inv by blast+
  from Cons.prems(2) d1 have "distinct (map identify (datums s1 @ rs))" by simp
  from Cons.IH [OF inv1 this] s1 d1 show ?case by auto
qed

lemma loadFrom_dup:
  "distinct (map identify (datums s)) \<Longrightarrow> \<not> distinct (map identify (datums s @ rs)) \<Longrightarrow>
    loadFrom s rs = Inl InvalidInputError"
proof (induction rs arbitrary: s)
  case Nil
  then show ?case by simp
next
  case (Cons r rs)
  show ?case
  proof (cases "identify r \<in> set (map identify (datums s))")
    case True
    then show ?thesis by (simp add: addRecord_def)
  next
    case False
    let ?s1 = "\<lparr>datums = datums s @ [r],
      tokenIndex = indexTokens r (datumTokenizer r) (tokenIndex s)\<rparr>"
    from False have a: "addRecord r s = Inr ?s1" by (simp add: addRecord_def)
    from False Cons.prems(1) have "distinct (map identify (datums ?s1))" by auto
    moreover from Cons.prems(2) have "\<not> distinct (map identify (datums ?s1 @ rs))" by simp
    ultimately have "loadFrom ?s1 rs = Inl InvalidInputError" by (rule Cons.IH)
    with a show ?thesis by simp
  qed
qed

lemma storeInv_empty: "storeInv emptyStore"
  by (simp add: storeInv_def emptyStore_def posting_def)

lemma load_ok:
  assumes "distinct (map t records)"
  shows "\<exists>s. load records = Inr s \<and> storeInv s \<and> datums s = records"
proof -
  from assms have "distinct (map identify (datums emptyStore @ records))"
    by (simp add: emptyStore_def identify_def [abs_def])
  from loadFrom_ok [OF storeInv_empty this] show ?thesis
    by (simp add: load_def emptyStore_def)
qed

lemma load_dup:
  assumes "\<not> distinct (map t records)"
  shows "load records = Inl InvalidInputError"
proof -
  have "distinct (map identify (datums emptyStore))" by (simp add: emptyStore_def)
  moreover from assms have "\<not> distinct (map identify (datums emptyStore @ records))"
    by (simp add: emptyStore_def identify_def [abs_def])
  ultimately show ?thesis unfolding load_def by (rule loadFrom_dup)
qed

lemma load_inv:
  assumes "load records = Inr s"
  shows "storeInv s \<and> datums s = records"
proof -
  have "distinct (map t records)"
  proof (rule ccontr)
    assume "\<not> distinct (map t records)"
    then have "load records = Inl InvalidInputError" by (rule load_dup)
    with assms show False by simp
  qed
  from load_ok [OF this] assms show ?thesis by auto
qed

lemma storeQuery_filter:
  assumes "storeInv s"
  shows "storeQuery s term query =
    (filter (\<lambda>r. term \<in> set (datumTokenizer r)) (datums s), term)"
  using assms by (simp add: storeQuery_def queryTokenizer_def storeInv_def)

lemma engineSearch_rank:
  "engineSearch s term query = (rank term (fst (storeQuery s term query')), term)"
  by (simp add: engineSearch_def storeQuery_def queryTokenizer_def rank_def)

text \<open>
  Claim C5. Loading records with pairwise distinct types package names succeeds, and on
  the resulting store every query tokenizes its term as the one token that is the term
  itself and returns exactly the loaded records that have the term among their tokens,
  compared by equality: a record with a token that only contains or starts with the term
  is not returned.
\<close>

theorem load_query_exact:
  assumes "distinct (map t records)"
  shows "\<exists>s. load records = Inr s \<and>
           (\<forall>term query. fst (queryTokenizer term query) = [term] \<and>
              fst (storeQuery s term query) =
                filter (\<lambda>r. term \<in> set (datumTokenizer r)) records)"
proof -
  from load_ok [OF assms] obtain s
    where s: "load records = Inr s" "storeInv s" "datums s = records"
    by blast
  have "fst (queryTokenizer input query) = [input]" for input query
    by (simp add: queryTokenizer_def)
  moreover have "fst (storeQuery s input query) =
      filter (\<lambda>r. input \<in> set (datumTokenizer r)) records" for input query
    using s by (simp add: storeQuery_filter)
  ultimately show ?thesis using s(1) by blast
qed

theorem load_query_exact_witness:
  "distinct (map t [recLodash, recLodashJs, recFoo, recBar]) \<and>
   (\<exists>s. load [recLodash, recLodashJs, recFoo, recBar] = Inr s \<and>
        fst (queryTokenizer ''lodash'' createEngine) = [''lodash''] \<and>
        fst (storeQuery s ''lodash'' createEngine) = [recLodash, recFoo] \<and>
        fst (storeQuery s ''lod'' createEngine) = [])"
proof -
  have dist: "distinct (map t [recLodash, recLodashJs, recFoo, recBar])"
    by (simp add: recLodash_def recLodashJs_def recFoo_def recBar_def)
  from load_query_exact [OF dist] obtain s where
    s: "load [recLodash, recLodashJs, recFoo, recBar] = Inr s"
    and q: "\<And>term query. fst (queryTokenizer term query) = [term] \<and>
              fst (storeQuery s term query) =
                filter (\<lambda>r. term \<in> set (datumTokenizer r))
                  [recLodash, recLodashJs, recFoo, recBar]"
    by blast
  have "fst (storeQuery s ''lodash'' createEngine) = [recLodash, recFoo]"
    by (simp add: q datumTokenizer_def recLodash_def recLodashJs_def recFoo_def recBar_def)
  moreover have "fst (storeQuery s ''lod'' createEngine) = []"
    by (simp add: q datumTokenizer_def recLodash_def recLodashJs_def recFoo_def recBar_def)
  moreover have "fst (queryTokenizer ''lodash'' createEngine) = [''lodash'']"
    by (simp add: q)
  ultimately show ?thesis using dist s by blast
qed

text \<open>
  Claim C7. When two of the records to load have the same types package name, loading
  fails with \<open>InvalidInputError\<close>: the result is the error and no store, and a search
  started on these records is rejected with the same error.
\<close>

theorem load_duplicate_fails:
  assumes "\<not> distinct (map t records)"
  shows "load records = Inl InvalidInputError \<and> (\<nexists>s. load records = Inr s) \<and>
         searchForTypes records searchTerm = Inl InvalidInputError"
  using load_dup [OF assms] by (simp add: searchForTypes_def)

theorem load_duplicate_fails_witness:
  "\<not> distinct (map t [recLodash, recFoo, recLodash]) \<and>
   load [recLodash, recFoo, recLodash] = Inl InvalidInputError \<and>
   searchForTypes [recLodash, recFoo, recLodash] ''lodash'' = Inl InvalidInputError"
proof -
  have dup: "\<not> distinct (map t [recLodash, recFoo, recLodash])" by simp
  from load_duplicate_fails [OF dup, of "''lodash''"] dup show ?thesis by blast
qed

text \<open>
  Claim C8. On a loaded store, a query whose term is a token of none of the records
  returns the empty sequence (the result type of a query has no error), and ranking the
  empty sequence gives the empty sequence.
\<close>

theorem no_match_is_empty:
  assumes "load records = Inr s" and "\<forall>r \<in> set records. term \<notin> set (datumTokenizer r)"
  shows "fst (storeQuery s term query) = [] \<and> rank queryTerm [] = []"
proof -
  from load_inv [OF assms(1)] have "storeInv s" and "datums s = records" by simp_all
  then have "fst (storeQuery s term query) =
      filter (\<lambda>r. term \<in> set (datumTokenizer r)) records"
    by (simp add: storeQuery_filter)
  also from assms(2) have "\<dots> = []" by (simp add: filter_empty_conv)
  finally show ?thesis by (simp add: rank_def)
qed

theorem no_match_is_empty_witness:
  "\<exists>s. load [recLodash, recBar] = Inr s \<and>
       ''doesnotexist'' \<notin> set (datumTokenizer recLodash) \<and>
       ''doesnotexist'' \<notin> set (datumTokenizer recBar) \<and>
       fst (storeQuery s ''doesnotexist'' createEngine) = [] \<and> rank ''doesnotexist'' [] = []"
proof -
  have "distinct (map t [recLodash, recBar])" by (simp add: recLodash_def recBar_def)
  from load_ok [OF this] obtain s where s: "load [recLodash, recBar] = Inr s" by blast
  have none: "\<forall>r \<in> set [recLodash, recBar]. ''doesnotexist'' \<notin> set (datumTokenizer r)"
    by (simp add: datumTokenizer_def recLodash_def recBar_def)
  from no_match_is_empty [OF s none] s none show ?thesis by auto
qed

section \<open>searchForTypes and main\<close>

text \<open>
  Claim C6. Once the prefetched records are loaded, \<open>searchForTypes\<close> resolves with the
  ranking, for the search term, of the store's matches for the search term, mapped in
  order to the package name \<^verbatim>\<open>@types/\<close> followed by the types package name and to the
  project field as URL. The content of the shared variable before the search plays no
  part.
\<close>

theorem searchForTypes_projects_rank:
  assumes "load prefetched = Inr s"
  shows "searchForTypes prefetched searchTerm =
           Inr (map (\<lambda>x. \<lparr>packageName = ''@types/'' @ t x, url = p x\<rparr>)
                  (rank searchTerm (fst (storeQuery s searchTerm query))))"
  using assms by (simp add: searchForTypes_def engineSearch_rank [where query' = query])

theorem searchForTypes_projects_rank_witness:
  "\<exists>s. load [recFoo, recLodashJs, recLodash] = Inr s \<and>
       fst (storeQuery s ''lodash'' createEngine) = [recFoo, recLodash] \<and>
       searchForTypes [recFoo, recLodashJs, recLodash] ''lodash'' =
         Inr [\<lparr>packageName = ''@types/lodash'', url = ''https://lodash.com''\<rparr>,
              \<lparr>packageName = ''@types/foo'', url = ''https://example.org/foo''\<rparr>]"
proof -
  have "distinct (map t [recFoo, recLodashJs, recLodash])"
    by (simp add: recLodash_def recLodashJs_def recFoo_def)
  from load_ok [OF this] obtain s where s: "load [recFoo, recLodashJs, recLodash] = Inr s"
    and inv: "storeInv s" and ds: "datums s = [recFoo, recLodashJs, recLodash]" by blast
  have q: "fst (storeQuery s ''lodash'' createEngine) = [recFoo, recLodash]"
    by (simp add: storeQuery_filter [OF inv] ds datumTokenizer_def
        recLodash_def recLodashJs_def recFoo_def)
  have "searchForTypes [recFoo, recLodashJs, recLodash] ''lodash'' =
         Inr [\<lparr>packageName = ''@types/lodash'', url = ''https://lodash.com''\<rparr>,
              \<lparr>packageName = ''@types/foo'', url = ''https://example.org/foo''\<rparr>]"
    unfolding searchForTypes_projects_rank [OF s, of "''lodash''" createEngine] q
    by (simp add: rank_def sorter_def recLodash_def recFoo_def)
  with s q show ?thesis by blast
qed

text \<open>
  Claim C10 asks that nothing is searched when no term is given. With no command-line
  argument \<open>main\<close> prints the warning and then calls \<open>searchForTypes\<close> all the same, with
  the missing term, and prints whatever that search resolves with.
\<close>

theorem main_searches_without_term:
  "main [] prefetched undef =
     Warn ''No search term found!'' # CallSearchForTypes None #
       (case undef of
          Inl e \<Rightarrow> [Rejected e]
        | Inr data \<Rightarrow>
            map (\<lambda>d. Log (bullet @ '' '' @ packageName d @ '' ('' @ url d @ '')'')) data)"
  by (simp add: main_def falsy_def)

lemma main_empty_term:
  "main ('''' # rest) prefetched undef =
     Warn ''No search term found!'' # CallSearchForTypes (Some '''') #
       (case searchForTypes prefetched '''' of
          Inl e \<Rightarrow> [Rejected e]
        | Inr data \<Rightarrow>
            map (\<lambda>d. Log (bullet @ '' '' @ packageName d @ '' ('' @ url d @ '')'')) data)"
  by (simp add: main_def falsy_def)

lemma main_with_term:
  "a \<noteq> [] \<Longrightarrow> main (a # rest) prefetched undef =
     CallSearchForTypes (Some a) #
       (case searchForTypes prefetched a of
          Inl e \<Rightarrow> [Rejected e]
        | Inr data \<Rightarrow>
            map (\<lambda>d. Log (bullet @ '' '' @ packageName d @ '' ('' @ url d @ '')'')) data)"
  by (simp add: main_def falsy_def)

end
